theory Spec2Isabelle
  imports Main
begin

section \<open>JavaScript primitives used by the browse-state code\<close>

text \<open>
  Array indexing \<^verbatim>\<open>xs[i]\<close>: an index outside the array reads \<^verbatim>\<open>undefined\<close>,
  which is \<open>None\<close> here.
\<close>

definition js_index :: "'a list \<Rightarrow> int \<Rightarrow> 'a option" where
  "js_index xs i = (if 0 \<le> i \<and> i < int (length xs) then Some (xs ! nat i) else None)"

text \<open>
  \<^verbatim>\<open>xs.slice(0, e)\<close>: a negative end counts from the end of the array, and the
  end is clamped to the array.
\<close>

definition js_slice0 :: "'a list \<Rightarrow> int \<Rightarrow> 'a list" where
  "js_slice0 xs e =
     (if e < 0 then take (nat (max 0 (int (length xs) + e))) xs else take (nat e) xs)"

text \<open>\<^verbatim>\<open>s.includes('/')\<close>, \<^verbatim>\<open>s.startsWith(p)\<close> and \<^verbatim>\<open>s.endsWith(p)\<close>.\<close>

definition includes_slash :: "string \<Rightarrow> bool" where
  "includes_slash s \<longleftrightarrow> CHR ''/'' \<in> set s"

definition startsWith :: "string \<Rightarrow> string \<Rightarrow> bool" where
  "startsWith s p \<longleftrightarrow> take (length p) s = p"

definition endsWith :: "string \<Rightarrow> string \<Rightarrow> bool" where
  "endsWith s p \<longleftrightarrow> length p \<le> length s \<and> drop (length s - length p) s = p"

text \<open>
  \<^verbatim>\<open>s.replace(/^\/\/|\/$/, '')\<close>: the pattern has no \<^verbatim>\<open>g\<close> flag, so only the
  leftmost match is removed. The first alternative matches two slashes at the start of
  the string; the second matches one slash at its end. A string that starts with two
  slashes loses them and keeps its trailing slash; any other string loses one trailing
  slash; a single leading slash is kept.
\<close>

definition replace_slashes :: "string \<Rightarrow> string" where
  "replace_slashes s =
     (if startsWith s ''//'' then drop 2 s
      else if endsWith s ''/'' then butlast s
      else s)"

text \<open>\<^verbatim>\<open>s.split('/')\<close>: the pieces between the slashes, empty pieces included.\<close>

fun split_slash :: "string \<Rightarrow> string list" where
  "split_slash [] = [[]]"
| "split_slash (c # cs) =
     (if c = CHR ''/'' then [] # split_slash cs
      else (case split_slash cs of
              [] \<Rightarrow> [[c]]
            | w # ws \<Rightarrow> (c # w) # ws))"

text \<open>\<^verbatim>\<open>s.split('/').filter(Boolean).length\<close>: the number of non-empty pieces.\<close>

definition segment_count :: "string \<Rightarrow> nat" where
  "segment_count s = length (filter (\<lambda>w. w \<noteq> []) (split_slash s))"

text \<open>\<^verbatim>\<open>s.lastIndexOf('/')\<close>, \<open>-1\<close> when there is no slash.\<close>

definition lastIndexOf_slash :: "string \<Rightarrow> int" where
  "lastIndexOf_slash s =
     (case filter (\<lambda>i. s ! i = CHR ''/'') (rev [0..<length s]) of
        [] \<Rightarrow> -1
      | i # _ \<Rightarrow> int i)"

text \<open>
  \<^verbatim>\<open>[...xs].sort(cmp)\<close>: the sort is stable, so for a consistent comparator its
  result is that of the stable insertion sort.
\<close>

fun insert_sorted :: "('a \<Rightarrow> 'a \<Rightarrow> int) \<Rightarrow> 'a \<Rightarrow> 'a list \<Rightarrow> 'a list" where
  "insert_sorted cmp x [] = [x]"
| "insert_sorted cmp x (y # ys) =
     (if cmp x y \<le> 0 then x # y # ys else y # insert_sorted cmp x ys)"

definition js_sort :: "('a \<Rightarrow> 'a \<Rightarrow> int) \<Rightarrow> 'a list \<Rightarrow> 'a list" where
  "js_sort cmp xs = foldr (insert_sorted cmp) xs []"

section \<open>NavigationHistory (services/navigationService.ts)\<close>

record NavigationHistory =
  history :: "string list"
  currentIndex :: int

text \<open>The field initialisers of the class: an empty history and index \<open>-1\<close>.\<close>

definition newNavigationHistory :: NavigationHistory where
  "newNavigationHistory = \<lparr>history = [], currentIndex = -1\<rparr>"

text \<open>
  \<^verbatim>\<open>addPath\<close> first truncates the entries after the current position, and only then
  compares the path with the current entry.
\<close>

definition addPath :: "string \<Rightarrow> NavigationHistory \<Rightarrow> NavigationHistory" where
  "addPath path h =
     (let h1 = (if currentIndex h < int (length (history h)) - 1
                then h\<lparr>history := js_slice0 (history h) (currentIndex h + 1)\<rparr>
                else h)
      in if js_index (history h1) (currentIndex h1) \<noteq> Some path
         then let hs = history h1 @ [path]
              in h1\<lparr>history := hs, currentIndex := int (length hs) - 1\<rparr>
         else h1)"

text \<open>
  The result of \<^verbatim>\<open>getPreviousPath\<close> and \<^verbatim>\<open>getNextPath\<close>: a path, \<^verbatim>\<open>null\<close>, or
  \<^verbatim>\<open>undefined\<close> when the moved index reads outside the array.
\<close>

datatype path_result = Path string | PathUndefined | PathNull

definition read_path :: "string list \<Rightarrow> int \<Rightarrow> path_result" where
  "read_path xs i = (case js_index xs i of Some p \<Rightarrow> Path p | None \<Rightarrow> PathUndefined)"

definition getPreviousPath :: "NavigationHistory \<Rightarrow> path_result \<times> NavigationHistory" where
  "getPreviousPath h =
     (if currentIndex h > 0
      then let h' = h\<lparr>currentIndex := currentIndex h - 1\<rparr>
           in (read_path (history h') (currentIndex h'), h')
      else (PathNull, h))"

definition getNextPath :: "NavigationHistory \<Rightarrow> path_result \<times> NavigationHistory" where
  "getNextPath h =
     (if currentIndex h < int (length (history h)) - 1
      then let h' = h\<lparr>currentIndex := currentIndex h + 1\<rparr>
           in (read_path (history h') (currentIndex h'), h')
      else (PathNull, h))"

definition reset :: "string \<Rightarrow> NavigationHistory" where
  "reset initialPath = \<lparr>history = [initialPath], currentIndex = 0\<rparr>"

definition canGoBack :: "NavigationHistory \<Rightarrow> bool" where
  "canGoBack h \<longleftrightarrow> currentIndex h > 0"

definition canGoForward :: "NavigationHistory \<Rightarrow> bool" where
  "canGoForward h \<longleftrightarrow> currentIndex h < int (length (history h)) - 1"

definition getCurrentPath :: "NavigationHistory \<Rightarrow> string" where
  "getCurrentPath h =
     (if currentIndex h \<ge> 0 \<and> currentIndex h < int (length (history h))
      then history h ! nat (currentIndex h)
      else [])"

text \<open>The state after \<^verbatim>\<open>back()\<close> and after \<^verbatim>\<open>forward()\<close>, the returned path dropped.\<close>

definition nav_back :: "NavigationHistory \<Rightarrow> NavigationHistory" where
  "nav_back h = snd (getPreviousPath h)"

definition nav_forward :: "NavigationHistory \<Rightarrow> NavigationHistory" where
  "nav_forward h = snd (getNextPath h)"

text \<open>\<^verbatim>\<open>visit(p1), ..., visit(pn)\<close> in this order.\<close>

definition visit_all :: "string list \<Rightarrow> NavigationHistory \<Rightarrow> NavigationHistory" where
  "visit_all ps h = foldl (\<lambda>h p. addPath p h) h ps"

text \<open>
  \<^verbatim>\<open>getParentPath\<close>: one trailing slash is removed, then the path is cut after its
  last slash; a last slash at position 0 gives the marker \<^verbatim>\<open>"/"\<close>.
\<close>

definition getParentPath :: "string \<Rightarrow> string" where
  "getParentPath currentPath =
     (if currentPath = [] then []
      else let normalizedPath = (if endsWith currentPath ''/'' then butlast currentPath
                                 else currentPath);
               lastSlashIndex = lastIndexOf_slash normalizedPath
           in if lastSlashIndex < 0 then []
              else if lastSlashIndex = 0 then ''/''
              else take (nat lastSlashIndex) normalizedPath @ ''/'')"

text \<open>
  \<^verbatim>\<open>normalizeFolderPath\<close>: all leading slashes are removed (\<^verbatim>\<open>/^\/+/\<close>) and a
  non-empty result ends with a slash.
\<close>

definition normalizeFolderPath :: "string \<Rightarrow> string" where
  "normalizeFolderPath folderPath =
     (if folderPath = [] then []
      else let normalizedPath = dropWhile (\<lambda>c. c = CHR ''/'') folderPath
           in if normalizedPath \<noteq> [] \<and> \<not> endsWith normalizedPath ''/''
              then normalizedPath @ ''/''
              else normalizedPath)"

section \<open>File list functions (services/fileService.ts)\<close>

text \<open>
  \<^verbatim>\<open>FileItem\<close>. The field \<^verbatim>\<open>size\<close> is \<open>size_f\<close> here; sizes are byte counts,
  natural numbers.
\<close>

record FileItem =
  name :: string
  is_dir :: bool
  size_f :: nat
  modified_date :: string
  type_name :: string

text \<open>The predicate of the \<^verbatim>\<open>files.filter\<close> call in \<^verbatim>\<open>filterFilesByFolder\<close>.\<close>

definition shouldInclude :: "string \<Rightarrow> FileItem \<Rightarrow> bool" where
  "shouldInclude currentFolderNormalized file =
     (let relativePath = replace_slashes (name file)
      in if currentFolderNormalized = [] then \<not> includes_slash relativePath
         else let startsWithCurrentFolder =
                    startsWith relativePath (currentFolderNormalized @ ''/'');
                  isDirectChild =
                    (if startsWithCurrentFolder
                     then \<not> includes_slash
                            (drop (length currentFolderNormalized + 1) relativePath)
                     else False)
              in startsWithCurrentFolder \<and> isDirectChild)"

definition filterFilesByFolder :: "FileItem list \<Rightarrow> string \<Rightarrow> FileItem list" where
  "filterFilesByFolder files currentFolder =
     (if length files = 0 then []
      else let currentFolderNormalized = replace_slashes currentFolder
           in filter (shouldInclude currentFolderNormalized) files)"

text \<open>
  \<^verbatim>\<open>sortFiles\<close>: directories first, then \<^verbatim>\<open>a.name.localeCompare(b.name)\<close>. The
  comparison of the runtime's locale is the parameter \<open>localeCompare\<close>.
\<close>

definition compareFiles :: "(string \<Rightarrow> string \<Rightarrow> int) \<Rightarrow> FileItem \<Rightarrow> FileItem \<Rightarrow> int" where
  "compareFiles localeCompare a b =
     (if is_dir a \<noteq> is_dir b then (if is_dir a then -1 else 1)
      else localeCompare (name a) (name b))"

definition sortFiles :: "(string \<Rightarrow> string \<Rightarrow> int) \<Rightarrow> FileItem list \<Rightarrow> FileItem list" where
  "sortFiles localeCompare files = js_sort (compareFiles localeCompare) files"

text \<open>The predicate of the \<^verbatim>\<open>files.filter\<close> call in \<^verbatim>\<open>getFileStats\<close>.\<close>

definition inCurrentFolder :: "string \<Rightarrow> FileItem \<Rightarrow> bool" where
  "inCurrentFolder currentFolder file =
     (if currentFolder = []
      then \<not> includes_slash (name file) \<or>
           (segment_count (name file) = 1 \<and> endsWith (name file) ''/'')
      else startsWith (name file) currentFolder \<and>
           (name file = currentFolder \<or>
            segment_count (drop (length currentFolder) (name file)) \<le> 1))"

record FileStats =
  count :: nat
  totalSize :: nat

definition getFileStats :: "FileItem list \<Rightarrow> string \<Rightarrow> FileStats" where
  "getFileStats files currentFolder =
     (let currentFiles = filter (inCurrentFolder currentFolder) files
      in \<lparr>count = length currentFiles,
          totalSize = foldl (\<lambda>sum file. sum + size_f file) 0 currentFiles\<rparr>)"

section \<open>Selection state of the file list (ui/fileExplorer.ts)\<close>

text \<open>
  The module variables of the file explorer. \<open>explorer_isLoading\<close> is the module's own
  \<^verbatim>\<open>isLoading\<close> flag, set by \<^verbatim>\<open>setLoading\<close>; \<open>currentOnFileDblClick\<close> records
  whether a double-click callback is stored (the only callback ever passed is the one
  of \<^verbatim>\<open>refreshUI\<close>).
\<close>

record explorer_state =
  explorer_isLoading :: bool
  selectedFiles :: "string set"
  lastClickedIndex :: int
  currentRenderedFiles :: "FileItem list"
  currentOnFileDblClick :: bool

definition initial_explorer :: explorer_state where
  "initial_explorer =
     \<lparr>explorer_isLoading = False, selectedFiles = {}, lastClickedIndex = -1,
      currentRenderedFiles = [], currentOnFileDblClick = False\<rparr>"

text \<open>
  The target of a mouse event on the list body: a \<^verbatim>\<open>.file-item\<close> element with its
  \<^verbatim>\<open>dataset.filename\<close> and parsed \<^verbatim>\<open>dataset.index\<close>, or the list body itself.
\<close>

datatype click_target = FileItemElement string int | ListBody

text \<open>
  The elements that \<^verbatim>\<open>appendFileItem\<close> creates for a list: the element of position
  \<open>i\<close> carries the name of the file at \<open>i\<close> and the index \<open>i\<close>.
\<close>

definition file_item_elements :: "FileItem list \<Rightarrow> click_target list" where
  "file_item_elements files =
     map (\<lambda>(i, file). FileItemElement (name file) (int i)) (enumerate 0 files)"

datatype js_error = TypeError

definition updateFileList :: "FileItem list \<Rightarrow> bool \<Rightarrow> explorer_state \<Rightarrow> explorer_state" where
  "updateFileList files onFileDblClick e =
     e\<lparr>currentRenderedFiles := files, selectedFiles := {}, lastClickedIndex := -1,
       currentOnFileDblClick := onFileDblClick\<rparr>"

text \<open>
  The loop \<^verbatim>\<open>for (i = start; i <= end; i++) selectedFiles.add(currentRenderedFiles[i].name)\<close>
  over the indices given as a list. Reading \<^verbatim>\<open>.name\<close> of an index outside the
  list throws; the result is then \<open>None\<close>.
\<close>

fun add_range :: "FileItem list \<Rightarrow> int list \<Rightarrow> string set \<Rightarrow> string set option" where
  "add_range files [] sel = Some sel"
| "add_range files (i # is) sel =
     (case js_index files i of
        None \<Rightarrow> None
      | Some file \<Rightarrow> add_range files is (insert (name file) sel))"

text \<open>
  \<^verbatim>\<open>handleFileListClick\<close>. \<open>Inl TypeError\<close> is the exception of the range loop
  leaving the handler (the selection it leaves behind is not modelled).
\<close>

definition handleFileListClick ::
  "click_target \<Rightarrow> bool \<Rightarrow> bool \<Rightarrow> explorer_state \<Rightarrow> js_error + explorer_state" where
  "handleFileListClick target ctrlPressed shiftPressed e =
     (if explorer_isLoading e then Inr e
      else case target of
        ListBody \<Rightarrow> Inr (e\<lparr>selectedFiles := {}, lastClickedIndex := -1\<rparr>)
      | FileItemElement filePath fileIndex \<Rightarrow>
          if filePath = [] \<or> fileIndex = -1 then Inr e
          else (case js_index (currentRenderedFiles e) fileIndex of
                  None \<Rightarrow> Inr e
                | Some file \<Rightarrow>
                    if shiftPressed \<and> lastClickedIndex e \<noteq> -1
                    then let start = min (lastClickedIndex e) fileIndex;
                             end = max (lastClickedIndex e) fileIndex;
                             sel = (if \<not> ctrlPressed then {} else selectedFiles e)
                         in (case add_range (currentRenderedFiles e) [start..end] sel of
                               None \<Rightarrow> Inl TypeError
                             | Some sel' \<Rightarrow> Inr (e\<lparr>selectedFiles := sel'\<rparr>))
                    else if ctrlPressed
                    then Inr (e\<lparr>selectedFiles :=
                                   (if filePath \<in> selectedFiles e
                                    then selectedFiles e - {filePath}
                                    else insert filePath (selectedFiles e)),
                                 lastClickedIndex := fileIndex\<rparr>)
                    else Inr (e\<lparr>selectedFiles := {filePath},
                                 lastClickedIndex := fileIndex\<rparr>)))"

text \<open>
  The operations of the selection model, as the handler under each modifier
  combination: a plain click, a ctrl/meta click, and a shift click (with ctrl/meta
  held when \<open>preserveExisting\<close>).
\<close>

definition clickSimple :: "string \<Rightarrow> int \<Rightarrow> explorer_state \<Rightarrow> js_error + explorer_state" where
  "clickSimple path index e = handleFileListClick (FileItemElement path index) False False e"

definition clickToggle :: "string \<Rightarrow> int \<Rightarrow> explorer_state \<Rightarrow> js_error + explorer_state" where
  "clickToggle path index e = handleFileListClick (FileItemElement path index) True False e"

definition clickRange ::
  "string \<Rightarrow> int \<Rightarrow> bool \<Rightarrow> explorer_state \<Rightarrow> js_error + explorer_state" where
  "clickRange path index preserveExisting e =
     handleFileListClick (FileItemElement path index) preserveExisting True e"

text \<open>The selection part of \<^verbatim>\<open>handleFileListContextMenu\<close>.\<close>

definition handleFileListContextMenu :: "click_target \<Rightarrow> explorer_state \<Rightarrow> explorer_state" where
  "handleFileListContextMenu target e =
     (if explorer_isLoading e then e
      else case target of
        ListBody \<Rightarrow> e
      | FileItemElement filePath fileIndex \<Rightarrow>
          if filePath \<noteq> [] \<and> fileIndex \<noteq> -1
          then (case js_index (currentRenderedFiles e) fileIndex of
                  None \<Rightarrow> e
                | Some file \<Rightarrow>
                    if filePath \<notin> selectedFiles e then e\<lparr>selectedFiles := {filePath}\<rparr>
                    else e)
          else e)"

definition setLoading :: "bool \<Rightarrow> explorer_state \<Rightarrow> explorer_state" where
  "setLoading loading e = e\<lparr>explorer_isLoading := loading\<rparr>"

text \<open>What a double click on a rendered item does to the selection, before it navigates.\<close>

definition clearOnDblClick :: "explorer_state \<Rightarrow> explorer_state" where
  "clearOnDblClick e = e\<lparr>selectedFiles := {}, lastClickedIndex := -1\<rparr>"

text \<open>
  A mouse event reaches the handlers with the element under the pointer. For a list
  whose rows are those of \<open>file_item_elements\<close> of the rendered list, the targets are
  the list body and these rows.
\<close>

definition rendered_target :: "explorer_state \<Rightarrow> click_target \<Rightarrow> bool" where
  "rendered_target e target \<longleftrightarrow>
     target = ListBody \<or> target \<in> set (file_item_elements (currentRenderedFiles e))"

subsection \<open>The list body and the batches of \<^verbatim>\<open>renderBatch\<close>\<close>

text \<open>
  \<^verbatim>\<open>updateFileList\<close> draws the rows in batches of \<^verbatim>\<open>BATCH_SIZE\<close>: the first batch at
  once, each further batch from a timer (\<^verbatim>\<open>setTimeout\<close>) that the batch before it
  sets. A timer keeps the list of its own call of \<^verbatim>\<open>updateFileList\<close> and appends to
  the one list body of the page; no code cancels a timer. The view is the module
  state, the rows now in the list body, and the batches whose timers are pending, each
  with its list and start index, in the order the timers were set.
\<close>

record file_list_view =
  vars :: explorer_state
  fileListBody :: "click_target list"
  pendingBatches :: "(FileItem list \<times> nat) list"

definition initial_view :: file_list_view where
  "initial_view = \<lparr>vars = initial_explorer, fileListBody = [], pendingBatches = []\<rparr>"

definition BATCH_SIZE :: nat where
  "BATCH_SIZE = 100"

text \<open>The rows that the loop of \<^verbatim>\<open>renderBatch\<close> appends for the indices from
  \<open>startIndex\<close> up to, not including, \<open>endIndex\<close>.\<close>

definition batch_rows :: "FileItem list \<Rightarrow> nat \<Rightarrow> nat \<Rightarrow> click_target list" where
  "batch_rows files startIndex endIndex =
     map (\<lambda>i. FileItemElement (name (files ! i)) (int i)) [startIndex..<endIndex]"

definition renderBatch :: "FileItem list \<Rightarrow> nat \<Rightarrow> file_list_view \<Rightarrow> file_list_view" where
  "renderBatch files startIndex v =
     (let endIndex = min (startIndex + BATCH_SIZE) (length files);
          v1 = v\<lparr>fileListBody := fileListBody v @ batch_rows files startIndex endIndex\<rparr>
      in if endIndex < length files
         then v1\<lparr>pendingBatches := pendingBatches v1 @ [(files, endIndex)]\<rparr>
         else v1)"

text \<open>
  \<^verbatim>\<open>updateFileList\<close> with its drawing: the module state is updated, the list body
  emptied, and a non-empty list starts its first batch.
\<close>

definition updateFileList_view ::
  "FileItem list \<Rightarrow> bool \<Rightarrow> file_list_view \<Rightarrow> file_list_view" where
  "updateFileList_view files onFileDblClick v =
     (let v1 = v\<lparr>vars := updateFileList files onFileDblClick (vars v), fileListBody := []\<rparr>
      in if length files = 0 then v1 else renderBatch files 0 v1)"

text \<open>The oldest pending timer fires and runs its batch.\<close>

definition fire_timer :: "file_list_view \<Rightarrow> file_list_view" where
  "fire_timer v =
     (case pendingBatches v of
        [] \<Rightarrow> v
      | (files, startIndex) # rest \<Rightarrow> renderBatch files startIndex (v\<lparr>pendingBatches := rest\<rparr>))"

text \<open>
  The states the view reaches: from the initial state, by a call of \<^verbatim>\<open>updateFileList\<close>,
  by a timer firing, by \<^verbatim>\<open>setLoading\<close>, and by mouse events on the list body or on
  a row that is in the list body.
\<close>

inductive view_reachable :: "file_list_view \<Rightarrow> bool" where
  reach_initial: "view_reachable initial_view"
| reach_render: "view_reachable v \<Longrightarrow> view_reachable (updateFileList_view files cb v)"
| reach_timer: "view_reachable v \<Longrightarrow> view_reachable (fire_timer v)"
| reach_loading:
    "view_reachable v \<Longrightarrow> view_reachable (v\<lparr>vars := setLoading loading (vars v)\<rparr>)"
| reach_click:
    "view_reachable v \<Longrightarrow> target = ListBody \<or> target \<in> set (fileListBody v) \<Longrightarrow>
     handleFileListClick target ctrlPressed shiftPressed (vars v) = Inr e' \<Longrightarrow>
     view_reachable (v\<lparr>vars := e'\<rparr>)"
| reach_context_menu:
    "view_reachable v \<Longrightarrow> target = ListBody \<or> target \<in> set (fileListBody v) \<Longrightarrow>
     view_reachable (v\<lparr>vars := handleFileListContextMenu target (vars v)\<rparr>)"
| reach_dblclick:
    "view_reachable v \<Longrightarrow> \<not> explorer_isLoading (vars v) \<Longrightarrow>
     view_reachable (v\<lparr>vars := clearOnDblClick (vars v)\<rparr>)"

section \<open>Application state and the browse controller\<close>

text \<open>The view that \<^verbatim>\<open>showHomePage\<close> and \<^verbatim>\<open>showFileBrowser\<close> switch.\<close>

datatype page = HomePage | FileBrowser

text \<open>
  Modelled from the spec: the notification channel. The module \<^verbatim>\<open>ui/notification\<close>
  with \<^verbatim>\<open>showError\<close>, \<^verbatim>\<open>showInfo\<close> and \<^verbatim>\<open>showSuccess\<close> is not among the
  sources; following the specification's \<^verbatim>\<open>notifyError(message)\<close>,
  \<^verbatim>\<open>notifyInfo(message)\<close> and \<^verbatim>\<open>notifySuccess(message)\<close>, a call adds a notice to
  the notices sent so far. A notice records which of the three functions was called;
  the message texts (localised templates around the error or the file names) are not
  modelled.
\<close>

datatype notice = ShowError | ShowInfo | ShowSuccess

text \<open>
  The module state of \<^verbatim>\<open>appState.ts\<close> (\<open>currentArchivePath\<close>, \<open>currentFiles\<close>,
  \<open>isLoading\<close>: the loading gate), the navigation history singleton, the state of the
  file explorer, the page shown and the notifications sent so far.
\<close>

record app_state =
  navigationHistory :: NavigationHistory
  currentArchivePath :: string
  currentFiles :: "FileItem list"
  isLoading :: bool
  explorer :: explorer_state
  page :: page
  notices :: "notice list"

definition setIsLoading :: "bool \<Rightarrow> app_state \<Rightarrow> app_state" where
  "setIsLoading loading s = s\<lparr>isLoading := loading\<rparr>"

definition resetAppState :: "app_state \<Rightarrow> app_state" where
  "resetAppState s = s\<lparr>currentArchivePath := [], currentFiles := [], isLoading := False\<rparr>"

text \<open>
  Modelled from the spec: \<^verbatim>\<open>showError\<close>, \<^verbatim>\<open>showInfo\<close> and \<^verbatim>\<open>showSuccess\<close> of the
  missing module \<^verbatim>\<open>ui/notification\<close>, each adding its notice to the channel.
\<close>

definition showError :: "app_state \<Rightarrow> app_state" where
  "showError s = s\<lparr>notices := notices s @ [ShowError]\<rparr>"

definition showInfo :: "app_state \<Rightarrow> app_state" where
  "showInfo s = s\<lparr>notices := notices s @ [ShowInfo]\<rparr>"

definition showSuccess :: "app_state \<Rightarrow> app_state" where
  "showSuccess s = s\<lparr>notices := notices s @ [ShowSuccess]\<rparr>"

definition showHomePage :: "app_state \<Rightarrow> app_state" where
  "showHomePage s = s\<lparr>page := HomePage\<rparr>"

definition showFileBrowser :: "app_state \<Rightarrow> app_state" where
  "showFileBrowser s = s\<lparr>page := FileBrowser\<rparr>"

text \<open>
  \<^verbatim>\<open>refreshUI\<close>: filter, sort and render the current folder. The breadcrumbs, the
  navigation buttons and the status bar are drawn from the state and hold none.
\<close>

definition refreshUI :: "(string \<Rightarrow> string \<Rightarrow> int) \<Rightarrow> app_state \<Rightarrow> app_state" where
  "refreshUI localeCompare s =
     (let currentFolder = getCurrentPath (navigationHistory s);
          filteredFiles = filterFilesByFolder (currentFiles s) currentFolder;
          sortedFiles = sortFiles localeCompare filteredFiles
      in s\<lparr>explorer := updateFileList sortedFiles True (explorer s)\<rparr>)"

definition navigateToFolder :: "(string \<Rightarrow> string \<Rightarrow> int) \<Rightarrow> string \<Rightarrow> app_state \<Rightarrow> app_state" where
  "navigateToFolder localeCompare folderPath s =
     (if isLoading s then s
      else let normalizedPath = normalizeFolderPath folderPath
           in refreshUI localeCompare
                (s\<lparr>navigationHistory := addPath normalizedPath (navigationHistory s)\<rparr>))"

definition updateLoadingStatus :: "bool \<Rightarrow> app_state \<Rightarrow> app_state" where
  "updateLoadingStatus loading s =
     s\<lparr>isLoading := loading, explorer := setLoading loading (explorer s)\<rparr>"

text \<open>
  \<^verbatim>\<open>resetAppToHome\<close> (ui/uiManager.ts): the application's initial state. It clears
  the archive data, shows the home page and resets the navigation history; the window
  title, the status bar and the toolbar buttons are drawn and hold no state.
\<close>

definition resetAppToHome :: "app_state \<Rightarrow> app_state" where
  "resetAppToHome s = (showHomePage (resetAppState s))\<lparr>navigationHistory := reset []\<rparr>"

text \<open>The click handlers of the Back, Forward and Up buttons (setup/navigation.ts).\<close>

definition backClick :: "(string \<Rightarrow> string \<Rightarrow> int) \<Rightarrow> app_state \<Rightarrow> app_state" where
  "backClick localeCompare s =
     (if isLoading s \<or> \<not> canGoBack (navigationHistory s) then s
      else let (prevPath, h) = getPreviousPath (navigationHistory s);
               s1 = s\<lparr>navigationHistory := h\<rparr>
           in if prevPath \<noteq> PathNull then refreshUI localeCompare s1 else s1)"

definition forwardClick :: "(string \<Rightarrow> string \<Rightarrow> int) \<Rightarrow> app_state \<Rightarrow> app_state" where
  "forwardClick localeCompare s =
     (if isLoading s \<or> \<not> canGoForward (navigationHistory s) then s
      else let (nextPath, h) = getNextPath (navigationHistory s);
               s1 = s\<lparr>navigationHistory := h\<rparr>
           in if nextPath \<noteq> PathNull then refreshUI localeCompare s1 else s1)"

definition upClick :: "(string \<Rightarrow> string \<Rightarrow> int) \<Rightarrow> app_state \<Rightarrow> app_state" where
  "upClick localeCompare s =
     (if isLoading s then s
      else let currentPath = getCurrentPath (navigationHistory s)
           in if currentPath \<noteq> []
              then navigateToFolder localeCompare (getParentPath currentPath) s
              else s)"

text \<open>
  The double-click callback that \<^verbatim>\<open>refreshUI\<close> passes to \<^verbatim>\<open>updateFileList\<close>, and
  \<^verbatim>\<open>handleFileListDblClick\<close>, which calls it and then runs the default behaviour.
\<close>

definition onFileDblClick :: "(string \<Rightarrow> string \<Rightarrow> int) \<Rightarrow> FileItem \<Rightarrow> app_state \<Rightarrow> app_state" where
  "onFileDblClick localeCompare file s =
     (if isLoading s then s
      else if is_dir file then navigateToFolder localeCompare (name file) s
      else s)"

definition handleFileListDblClick ::
  "(string \<Rightarrow> string \<Rightarrow> int) \<Rightarrow> click_target \<Rightarrow> app_state \<Rightarrow> app_state" where
  "handleFileListDblClick localeCompare target s =
     (if explorer_isLoading (explorer s) then s
      else case target of
        ListBody \<Rightarrow> s
      | FileItemElement filePath fileIndex \<Rightarrow>
          if fileIndex = -1 then s
          else (case js_index (currentRenderedFiles (explorer s)) fileIndex of
                  None \<Rightarrow> s
                | Some file \<Rightarrow>
                    let s1 = s\<lparr>explorer := clearOnDblClick (explorer s)\<rparr>;
                        s2 = (if currentOnFileDblClick (explorer s1)
                              then onFileDblClick localeCompare file s1
                              else s1)
                    in if is_dir file
                       then navigateToFolder localeCompare (name file) s2
                       else showInfo s2))"

text \<open>
  An awaited backend call settles with an error message or with its value. Each
  asynchronous handler is split at its first \<^verbatim>\<open>await\<close>: the part that runs before
  the call is issued, and the part that runs once it has settled.
\<close>

type_synonym 'a backend_result = "string + 'a"

text \<open>\<^verbatim>\<open>loadArchive\<close> (services/archiveService.ts).\<close>

definition loadArchive_begin :: "app_state \<Rightarrow> app_state" where
  "loadArchive_begin s = setIsLoading True s"

definition loadArchive_settle ::
  "(string \<Rightarrow> string \<Rightarrow> int) \<Rightarrow> string \<Rightarrow> FileItem list backend_result \<Rightarrow> app_state \<Rightarrow> app_state" where
  "loadArchive_settle localeCompare archivePath result s =
     setIsLoading False
       (case result of
          Inr files \<Rightarrow>
            let s1 = s\<lparr>currentArchivePath := archivePath, currentFiles := files\<rparr>;
                s2 = s1\<lparr>navigationHistory := reset []\<rparr>;
                s3 = showFileBrowser s2;
                s4 = refreshUI localeCompare s3
            in showSuccess s4
        | Inl error \<Rightarrow> showHomePage (resetAppState (showError s)))"

definition loadArchive ::
  "(string \<Rightarrow> string \<Rightarrow> int) \<Rightarrow> string \<Rightarrow> FileItem list backend_result \<Rightarrow> app_state \<Rightarrow> app_state" where
  "loadArchive localeCompare archivePath result s =
     loadArchive_settle localeCompare archivePath result (loadArchive_begin s)"

text \<open>
  The click handler of the Refresh button. \<open>refresh_begin\<close> is \<open>None\<close> when the guard
  rejects the click.
\<close>

definition refresh_begin :: "app_state \<Rightarrow> app_state option" where
  "refresh_begin s =
     (if isLoading s \<or> currentArchivePath s = [] then None
      else Some (updateLoadingStatus True s))"

definition refresh_settle ::
  "(string \<Rightarrow> string \<Rightarrow> int) \<Rightarrow> FileItem list backend_result \<Rightarrow> app_state \<Rightarrow> app_state" where
  "refresh_settle localeCompare result s =
     updateLoadingStatus False
       (case result of
          Inr files \<Rightarrow> refreshUI localeCompare (s\<lparr>currentFiles := files\<rparr>)
        | Inl error \<Rightarrow> showError s)"

definition refreshClick ::
  "(string \<Rightarrow> string \<Rightarrow> int) \<Rightarrow> FileItem list backend_result \<Rightarrow> app_state \<Rightarrow> app_state" where
  "refreshClick localeCompare result s =
     (case refresh_begin s of
        None \<Rightarrow> s
      | Some s1 \<Rightarrow> refresh_settle localeCompare result s1)"

text \<open>
  \<^verbatim>\<open>handleDelete\<close> (setup/toolbar.ts): \<open>confirmed\<close> is the user's answer to the
  confirmation dialog, \<open>deleteResult\<close> the outcome of \<^verbatim>\<open>delete_files_in_archive\<close> and
  \<open>reloadResult\<close> that of the \<^verbatim>\<open>open_archive\<close> call after it. The handler reads no
  loading flag.
\<close>

definition handleDelete ::
  "(string \<Rightarrow> string \<Rightarrow> int) \<Rightarrow> bool \<Rightarrow> unit backend_result \<Rightarrow> FileItem list backend_result \<Rightarrow>
   app_state \<Rightarrow> app_state" where
  "handleDelete localeCompare confirmed deleteResult reloadResult s =
     (let filesToDelete = selectedFiles (explorer s)
      in if filesToDelete = {} then showInfo s
         else if \<not> confirmed then s
         else setIsLoading False
                (let s1 = setIsLoading True s
                 in case deleteResult of
                      Inl error \<Rightarrow> showError s1
                    | Inr u \<Rightarrow>
                        (case reloadResult of
                           Inl error \<Rightarrow> showError s1
                         | Inr files \<Rightarrow>
                             showSuccess
                               (refreshUI localeCompare (s1\<lparr>currentFiles := files\<rparr>)))))"

section \<open>Auxiliary predicates and example data\<close>

text \<open>A history whose cursor is at its last entry.\<close>

definition at_end :: "NavigationHistory \<Rightarrow> bool" where
  "at_end h \<longleftrightarrow> history h \<noteq> [] \<and> currentIndex h = int (length (history h)) - 1"

text \<open>The history \<open>[a, b, c]\<close> with the cursor at \<open>i\<close>.\<close>

definition history_abc :: "int \<Rightarrow> NavigationHistory" where
  "history_abc i = \<lparr>history = [''a'', ''b'', ''c''], currentIndex = i\<rparr>"

text \<open>A file item with the given path and kind; the other fields are not looked at.\<close>

definition file_named :: "string \<Rightarrow> bool \<Rightarrow> FileItem" where
  "file_named n d = \<lparr>name = n, is_dir = d, size_f = 0, modified_date = [], type_name = []\<rparr>"

text \<open>The entry list \<^verbatim>\<open>["a.txt", "dir/b.txt", "dir/sub/c.txt"]\<close>.\<close>

definition example_entries :: "FileItem list" where
  "example_entries =
     [file_named ''a.txt'' False, file_named ''dir/b.txt'' False,
      file_named ''dir/sub/c.txt'' False]"

text \<open>A directory's own entry followed by one file in it.\<close>

definition marker_and_child :: "FileItem list" where
  "marker_and_child = [file_named ''dir/'' True, file_named ''dir/b.txt'' False]"

text \<open>
  The child filter as the specification words it, to compare with
  \<open>filterFilesByFolder\<close>: the prefix is the folder without a leading slash and without a
  trailing slash; an entry is a child when its path has no slash (empty prefix), or
  starts with the prefix and a slash and has no further slash.
\<close>

definition strip_trailing_slash :: "string \<Rightarrow> string" where
  "strip_trailing_slash s = (if endsWith s ''/'' then butlast s else s)"

definition spec_prefix :: "string \<Rightarrow> string" where
  "spec_prefix folder =
     strip_trailing_slash (if startsWith folder ''/'' then drop 1 folder else folder)"

definition spec_is_child :: "string \<Rightarrow> string \<Rightarrow> bool" where
  "spec_is_child prefix path =
     (if prefix = [] then \<not> includes_slash path
      else startsWith path (prefix @ ''/'') \<and>
           \<not> includes_slash (drop (length prefix + 1) path))"

definition spec_children :: "FileItem list \<Rightarrow> string \<Rightarrow> FileItem list" where
  "spec_children entries folder =
     filter (\<lambda>e. spec_is_child (spec_prefix folder) (name e)) entries"


text \<open>
  The invariant of the selection state: every selected path is the name of a rendered
  file, and the anchor is unset or an index of the rendered list.
\<close>

definition explorer_inv :: "explorer_state \<Rightarrow> bool" where
  "explorer_inv e \<longleftrightarrow>
     selectedFiles e \<subseteq> name ` set (currentRenderedFiles e) \<and>
     (lastClickedIndex e = -1 \<or>
      (0 \<le> lastClickedIndex e \<and> lastClickedIndex e < int (length (currentRenderedFiles e))))"

text \<open>Rendered lists of two and of five rows, and the explorer right after a render.\<close>

definition two_rows :: "FileItem list" where
  "two_rows = [file_named ''A'' False, file_named ''B'' False]"


definition rendered_list :: "FileItem list \<Rightarrow> explorer_state" where
  "rendered_list files = updateFileList files True initial_explorer"

text \<open>
  The explorer after a right click on row \<open>B\<close> of a fresh two-row list: \<open>B\<close> is
  selected and no anchor is set.
\<close>

definition menu_selected_B :: explorer_state where
  "menu_selected_B =
     handleFileListContextMenu (FileItemElement ''B'' 1) (rendered_list two_rows)"

text \<open>
  An application state while an asynchronous operation started by \<^verbatim>\<open>setIsLoading(true)\<close>
  is outstanding: the gate is busy, the folder \<open>dir/\<close> is shown after a visit from the
  root, and its file is selected.
\<close>

definition busy_example :: app_state where
  "busy_example =
     \<lparr>navigationHistory = \<lparr>history = [[], ''dir/''], currentIndex = 1\<rparr>,
      currentArchivePath = ''/tmp/x.zip'',
      currentFiles = [file_named ''dir/'' True, file_named ''dir/b.txt'' False],
      isLoading = True,
      explorer = \<lparr>explorer_isLoading = False, selectedFiles = {''dir/b.txt''},
                  lastClickedIndex = 0,
                  currentRenderedFiles = [file_named ''dir/b.txt'' False],
                  currentOnFileDblClick = True\<rparr>,
      page = FileBrowser,
      notices = []\<rparr>"

text \<open>The state \<open>busy_example\<close> with the gate idle: an archive is open at \<open>dir/\<close>.\<close>

definition browsing_example :: app_state where
  "browsing_example = setIsLoading False busy_example"

text \<open>
  A list of 101 rows, one more than a batch: the paths are the letter \<open>c\<close> followed by
  \<open>0, 1, ..., 100\<close> letters \<open>x\<close>.
\<close>

definition numbered_rows :: "char \<Rightarrow> FileItem list" where
  "numbered_rows c = map (\<lambda>i. file_named (c # replicate i (CHR ''x'')) False) [0..<101]"

text \<open>
  Two such lists rendered one after the other before the timer of the first has fired,
  then that timer firing: the last row of the first list is appended to the rows of
  the second. \<open>stale_path\<close> is the path of that row, and \<open>stale_clicked\<close> the view
  with that path selected and the anchor on index 100.
\<close>

definition stale_view :: file_list_view where
  "stale_view =
     fire_timer
       (updateFileList_view (numbered_rows (CHR ''n'')) True
          (updateFileList_view (numbered_rows (CHR ''o'')) True initial_view))"

definition stale_path :: string where
  "stale_path = CHR ''o'' # replicate 100 (CHR ''x'')"

definition stale_clicked :: file_list_view where
  "stale_clicked =
     stale_view\<lparr>vars := (vars stale_view)\<lparr>selectedFiles := {stale_path},
                                              lastClickedIndex := 100\<rparr>\<rparr>"

text \<open>A comparison for the examples: every two names compare equal.\<close>

definition no_locale :: "string \<Rightarrow> string \<Rightarrow> int" where
  "no_locale a b = 0"

section \<open>Navigation history\<close>

lemma addPath_history:
  assumes "-1 \<le> currentIndex h"
  shows "history (addPath p h) =
           (if js_index (history h) (currentIndex h) = Some p
            then take (nat (currentIndex h + 1)) (history h)
            else take (nat (currentIndex h + 1)) (history h) @ [p])"
  using assms
  by (auto simp: addPath_def js_index_def js_slice0_def Let_def nth_append min_def)

lemma addPath_currentIndex:
  assumes "-1 \<le> currentIndex h"
  shows "currentIndex (addPath p h) =
           (if js_index (history h) (currentIndex h) = Some p
            then currentIndex h
            else int (length (history (addPath p h))) - 1)"
  using assms
  by (auto simp: addPath_def js_index_def js_slice0_def Let_def nth_append min_def)

text \<open>
  The cursor never falls below \<open>-1\<close>: it is \<open>-1\<close> in a new object and every
  operation keeps the bound.
\<close>

lemma cursor_lower_bound:
  "-1 \<le> currentIndex newNavigationHistory"
  "-1 \<le> currentIndex (reset initialPath)"
  "-1 \<le> currentIndex h \<Longrightarrow> -1 \<le> currentIndex (addPath p h)"
  "-1 \<le> currentIndex h \<Longrightarrow> -1 \<le> currentIndex (nav_back h)"
  "-1 \<le> currentIndex h \<Longrightarrow> -1 \<le> currentIndex (nav_forward h)"
  by (auto simp: newNavigationHistory_def reset_def addPath_def nav_back_def nav_forward_def
      getPreviousPath_def getNextPath_def Let_def)

text \<open>
  Claim C1, as stated, fails: with the history \<open>[a, b, c]\<close> and the cursor at \<open>b\<close>,
  visiting \<open>b\<close> again is not a no-op, it drops the forward entry \<open>c\<close>.
\<close>

theorem addPath_same_path_counterexample:
  "js_index (history (history_abc 1)) (currentIndex (history_abc 1)) = Some ''b'' \<and>
   addPath ''b'' (history_abc 1) = \<lparr>history = [''a'', ''b''], currentIndex = 1\<rparr> \<and>
   addPath ''b'' (history_abc 1) \<noteq> history_abc 1"
  by (simp add: history_abc_def addPath_def js_index_def js_slice0_def)

text \<open>
  Claim C1, amended. In every state whose cursor is at least \<open>-1\<close> (every state
  the class reaches): visiting the
  current entry leaves the cursor where it is and appends nothing, but still discards
  the entries after the cursor, so it is a no-op exactly when the cursor is at the last
  entry; visiting any other path discards the entries after the cursor, appends the
  path and puts the cursor on it, after which there is nothing to go forward to. From
  \<open>[a, b, c]\<close> at cursor 2, going back and visiting \<open>d \<noteq> b\<close> gives \<open>[a, b, d]\<close> at
  cursor 2.
\<close>

theorem addPath_truncates_then_appends:
  assumes "-1 \<le> currentIndex h"
  shows "(js_index (history h) (currentIndex h) = Some path \<longrightarrow>
            addPath path h = h\<lparr>history := take (nat (currentIndex h + 1)) (history h)\<rparr> \<and>
            (currentIndex h = int (length (history h)) - 1 \<longrightarrow> addPath path h = h)) \<and>
         (js_index (history h) (currentIndex h) \<noteq> Some path \<longrightarrow>
            history (addPath path h) = take (nat (currentIndex h + 1)) (history h) @ [path] \<and>
            currentIndex (addPath path h) = int (length (history (addPath path h))) - 1 \<and>
            \<not> canGoForward (addPath path h)) \<and>
         (d \<noteq> b \<longrightarrow>
            nav_back \<lparr>history = [a, b, c], currentIndex = 2\<rparr> =
              \<lparr>history = [a, b, c], currentIndex = 1\<rparr> \<and>
            addPath d (nav_back \<lparr>history = [a, b, c], currentIndex = 2\<rparr>) =
              \<lparr>history = [a, b, d], currentIndex = 2\<rparr> \<and>
            \<not> canGoForward (addPath d (nav_back \<lparr>history = [a, b, c], currentIndex = 2\<rparr>)))"
proof (intro conjI impI)
  assume same: "js_index (history h) (currentIndex h) = Some path"
  have "history (addPath path h) = take (nat (currentIndex h + 1)) (history h)"
    using addPath_history [OF assms, of path] same by simp
  moreover have "currentIndex (addPath path h) = currentIndex h"
    using addPath_currentIndex [OF assms, of path] same by simp
  ultimately show trunc:
    "addPath path h = h\<lparr>history := take (nat (currentIndex h + 1)) (history h)\<rparr>"
    by simp
  assume "currentIndex h = int (length (history h)) - 1"
  then show "addPath path h = h" unfolding trunc by simp
next
  assume diff: "js_index (history h) (currentIndex h) \<noteq> Some path"
  show "history (addPath path h) = take (nat (currentIndex h + 1)) (history h) @ [path]"
    using addPath_history [OF assms, of path] diff by simp
  show "currentIndex (addPath path h) = int (length (history (addPath path h))) - 1"
    using addPath_currentIndex [OF assms, of path] diff by simp
  then show "\<not> canGoForward (addPath path h)"
    by (simp add: canGoForward_def)
next
  assume "d \<noteq> b"
  show "nav_back \<lparr>history = [a, b, c], currentIndex = 2\<rparr> =
              \<lparr>history = [a, b, c], currentIndex = 1\<rparr>"
    by (simp add: nav_back_def getPreviousPath_def)
  show "addPath d (nav_back \<lparr>history = [a, b, c], currentIndex = 2\<rparr>) =
              \<lparr>history = [a, b, d], currentIndex = 2\<rparr>"
    using \<open>d \<noteq> b\<close>
    by (simp add: nav_back_def getPreviousPath_def addPath_def js_index_def js_slice0_def)
  then show "\<not> canGoForward (addPath d (nav_back \<lparr>history = [a, b, c], currentIndex = 2\<rparr>))"
    by (simp add: canGoForward_def)
qed

theorem addPath_truncates_then_appends_witness:
  "-1 \<le> currentIndex (history_abc 1) \<and>
   addPath ''b'' (history_abc 1) = \<lparr>history = [''a'', ''b''], currentIndex = 1\<rparr> \<and>
   history (addPath ''d'' (history_abc 1)) = [''a'', ''b'', ''d''] \<and>
   \<not> canGoForward (addPath ''d'' (history_abc 1)) \<and>
   addPath ''d'' (nav_back \<lparr>history = [''a'', ''b'', ''c''], currentIndex = 2\<rparr>) =
     \<lparr>history = [''a'', ''b'', ''d''], currentIndex = 2\<rparr>"
  using addPath_truncates_then_appends
          [where h = "history_abc 1" and path = "''b''" and d = "''d''" and b = "''b''"
             and a = "''a''" and c = "''c''"]
        addPath_truncates_then_appends
          [where h = "history_abc 1" and path = "''d''" and d = "''d''" and b = "''b''"
             and a = "''a''" and c = "''c''"]
  by (simp add: history_abc_def js_index_def)

lemma at_end_reset: "at_end (reset init)"
  by (simp add: at_end_def reset_def)

lemma at_end_addPath: "at_end h \<Longrightarrow> at_end (addPath p h)"
  by (auto simp: at_end_def addPath_def js_index_def Let_def)

lemma addPath_current: "at_end h \<Longrightarrow> getCurrentPath (addPath p h) = p"
  by (auto simp: at_end_def addPath_def js_index_def getCurrentPath_def Let_def nth_append)

lemma addPath_length:
  "at_end h \<Longrightarrow> getCurrentPath h \<noteq> p \<Longrightarrow>
   length (history (addPath p h)) = Suc (length (history h))"
  by (auto simp: at_end_def addPath_def js_index_def getCurrentPath_def Let_def)

lemma visit_all_snoc: "visit_all (ps @ [p]) h = addPath p (visit_all ps h)"
  by (simp add: visit_all_def)

lemma at_end_visit_all: "at_end h \<Longrightarrow> at_end (visit_all ps h)"
  by (induction ps rule: rev_induct) (simp_all add: visit_all_def at_end_addPath)

lemma visit_all_current:
  "at_end h \<Longrightarrow> ps \<noteq> [] \<Longrightarrow> getCurrentPath (visit_all ps h) = last ps"
  by (cases ps rule: rev_cases) (simp_all add: visit_all_snoc addPath_current at_end_visit_all)

text \<open>Without consecutive duplicates, every visit after the first adds an entry.\<close>

lemma visit_all_length:
  "at_end h \<Longrightarrow> distinct_adj ps \<Longrightarrow> length ps \<le> length (history (visit_all ps h))"
proof (induction ps rule: rev_induct)
  case Nil
  then show ?case by simp
next
  case (snoc p ps)
  have da: "distinct_adj ps" and ne: "ps \<noteq> [] \<Longrightarrow> last ps \<noteq> p"
    using snoc.prems(2) by (auto simp: distinct_adj_append_iff hd_conv_nth)
  have e: "at_end (visit_all ps h)" using snoc.prems(1) by (rule at_end_visit_all)
  show ?case
  proof (cases "ps = []")
    case True
    have "history (addPath p h) \<noteq> []"
      using at_end_addPath [OF snoc.prems(1)] by (simp add: at_end_def)
    then show ?thesis using True by (cases "history (addPath p h)") (simp_all add: visit_all_def)
  next
    case False
    then have "getCurrentPath (visit_all ps h) \<noteq> p"
      using visit_all_current [OF snoc.prems(1) False] ne by simp
    then show ?thesis
      using addPath_length [OF e] snoc.IH [OF snoc.prems(1) da] by (simp add: visit_all_snoc)
  qed
qed

lemma nav_back_pow:
  "int k \<le> currentIndex h \<Longrightarrow> (nav_back ^^ k) h = h\<lparr>currentIndex := currentIndex h - int k\<rparr>"
proof (induction k)
  case 0
  then show ?case by simp
next
  case (Suc k)
  then show ?case by (simp add: nav_back_def getPreviousPath_def)
qed

lemma nav_forward_pow:
  "currentIndex h + int k \<le> int (length (history h)) - 1 \<Longrightarrow>
   (nav_forward ^^ k) h = h\<lparr>currentIndex := currentIndex h + int k\<rparr>"
proof (induction k)
  case 0
  then show ?case by simp
next
  case (Suc k)
  then show ?case by (simp add: nav_forward_def getNextPath_def)
qed

lemma nav_back_history: "history (nav_back h) = history h"
  by (simp add: nav_back_def getPreviousPath_def)

lemma nav_forward_history: "history (nav_forward h) = history h"
  by (simp add: nav_forward_def getNextPath_def)

text \<open>
  Claim C2. After \<open>reset\<close> and the visits \<open>p1, ..., pn\<close> (\<open>n \<ge> 1\<close>, no two
  consecutive paths equal) the current path is \<open>pn\<close>; for \<open>k \<le> n - 1\<close>, going back
  \<open>k\<close> times moves the cursor back by exactly \<open>k\<close> and leaves the entries as they are,
  and going forward \<open>k\<close> times after that restores the state, so the current path is
  \<open>pn\<close> again. A single \<open>back\<close> or \<open>forward\<close> never changes the entries, in any state.
\<close>

theorem back_then_forward_returns:
  assumes "ps \<noteq> []" and "distinct_adj ps" and "k \<le> length ps - 1"
  shows "getCurrentPath (visit_all ps (reset init)) = last ps \<and>
         currentIndex ((nav_back ^^ k) (visit_all ps (reset init))) =
           currentIndex (visit_all ps (reset init)) - int k \<and>
         history ((nav_back ^^ k) (visit_all ps (reset init))) =
           history (visit_all ps (reset init)) \<and>
         (nav_forward ^^ k) ((nav_back ^^ k) (visit_all ps (reset init))) =
           visit_all ps (reset init) \<and>
         getCurrentPath ((nav_forward ^^ k) ((nav_back ^^ k) (visit_all ps (reset init)))) =
           last ps \<and>
         history (nav_back h) = history h \<and> history (nav_forward h) = history h"
proof -
  define v where "v = visit_all ps (reset init)"
  have e: "at_end v" unfolding v_def by (rule at_end_visit_all [OF at_end_reset])
  have cur: "getCurrentPath v = last ps"
    unfolding v_def by (rule visit_all_current [OF at_end_reset assms(1)])
  have "length ps \<le> length (history v)"
    unfolding v_def by (rule visit_all_length [OF at_end_reset assms(2)])
  moreover have "0 < length ps" using assms(1) by simp
  ultimately have "k < length (history v)" using assms(3) by linarith
  then have k: "int k \<le> currentIndex v" using e by (simp add: at_end_def)
  have b: "(nav_back ^^ k) v = v\<lparr>currentIndex := currentIndex v - int k\<rparr>"
    by (rule nav_back_pow [OF k])
  have "(nav_forward ^^ k) (v\<lparr>currentIndex := currentIndex v - int k\<rparr>) =
        v\<lparr>currentIndex := currentIndex v - int k, currentIndex := currentIndex v - int k + int k\<rparr>"
    using e nav_forward_pow [of "v\<lparr>currentIndex := currentIndex v - int k\<rparr>" k]
    by (simp add: at_end_def)
  then have f: "(nav_forward ^^ k) ((nav_back ^^ k) v) = v" by (simp add: b)
  show ?thesis
    unfolding v_def [symmetric]
    using cur b f by (simp add: nav_back_history nav_forward_history)
qed

theorem back_then_forward_returns_witness:
  "[''x/'', ''x/y/''] \<noteq> [] \<and> distinct_adj [''x/'', ''x/y/''] \<and>
   (1::nat) \<le> length [''x/'', ''x/y/''] - 1 \<and>
   getCurrentPath (visit_all [''x/'', ''x/y/''] (reset [])) = ''x/y/'' \<and>
   (nav_forward ^^ 1) ((nav_back ^^ 1) (visit_all [''x/'', ''x/y/''] (reset []))) =
     visit_all [''x/'', ''x/y/''] (reset [])"
  using back_then_forward_returns [where ps = "[''x/'', ''x/y/'']" and k = 1 and init = "[]"]
  by simp

section \<open>The child filter\<close>

lemmas str_defs = startsWith_def endsWith_def includes_slash_def replace_slashes_def
  strip_trailing_slash_def

lemma fn_simps [simp]: "name (file_named n d) = n" "is_dir (file_named n d) = d"
  by (simp_all add: file_named_def)

text \<open>
  Claim C3, as stated, fails. For the entry list \<open>[a.txt, dir/b.txt, dir/sub/c.txt]\<close>
  the children of the root are \<open>[a.txt]\<close> alone: the filter only selects entries of
  the list, and the list has no entry for the directory \<open>dir\<close>. And an entry whose
  path equals the (empty) prefix of the root is among the root's children.
\<close>

theorem root_children_counterexample:
  "map name (filterFilesByFolder example_entries []) = [''a.txt''] \<and>
   ''dir'' \<notin> set (map name (filterFilesByFolder example_entries [])) \<and>
   ''dir/'' \<notin> set (map name (filterFilesByFolder example_entries [])) \<and>
   name (file_named [] False) = replace_slashes [] \<and>
   file_named [] False \<in> set (filterFilesByFolder [file_named [] False] [])"
  by (simp add: example_entries_def filterFilesByFolder_def shouldInclude_def str_defs)

lemma length_replace_slashes: "length (replace_slashes s) \<le> length s"
  by (simp add: str_defs)

lemma own_marker_excluded:
  assumes "replace_slashes folder \<noteq> []"
    and "name e = replace_slashes folder \<or> name e = folder"
  shows "\<not> shouldInclude (replace_slashes folder) e"
proof -
  let ?p = "replace_slashes folder"
  have "length (replace_slashes (name e)) \<le> length ?p"
    using assms(2) length_replace_slashes [of ?p] by auto
  moreover have "Suc (length ?p) \<le> length r" if t: "take (Suc (length ?p)) r = ?p @ ''/''" for r
  proof -
    have "length (take (Suc (length ?p)) r) = Suc (length ?p)" unfolding t by simp
    then show ?thesis by simp
  qed
  ultimately have "\<not> startsWith (replace_slashes (name e)) (?p @ ''/'')"
    unfolding startsWith_def by (auto simp del: take_Suc_Cons)
  then show ?thesis using assms(1) by (simp add: shouldInclude_def Let_def)
qed

text \<open>
  Claim C3, amended. For the entry list \<open>[a.txt, dir/b.txt, dir/sub/c.txt]\<close> the
  children of the root are exactly the items without a slash, \<open>[a.txt]\<close>; the
  directory \<open>dir\<close> is among them once the list holds its own entry; the children of
  \<open>dir/\<close> are exactly \<open>[dir/b.txt]\<close>; and for a folder with a non-empty prefix, an
  entry whose path is the prefix or the folder string itself is never among the
  folder's children.
\<close>

theorem children_of_example:
  "map name (filterFilesByFolder example_entries []) = [''a.txt''] \<and>
   map name (filterFilesByFolder (file_named ''dir/'' True # example_entries) []) =
     [''dir/'', ''a.txt''] \<and>
   map name (filterFilesByFolder example_entries ''dir/'') = [''dir/b.txt''] \<and>
   (replace_slashes folder \<noteq> [] \<longrightarrow>
      (name e = replace_slashes folder \<or> name e = folder) \<longrightarrow>
      e \<notin> set (filterFilesByFolder files folder))"
proof (intro conjI impI)
  assume "replace_slashes folder \<noteq> []" "name e = replace_slashes folder \<or> name e = folder"
  then have "\<not> shouldInclude (replace_slashes folder) e" by (rule own_marker_excluded)
  then show "e \<notin> set (filterFilesByFolder files folder)"
    by (simp add: filterFilesByFolder_def)
qed (simp_all add: example_entries_def filterFilesByFolder_def shouldInclude_def str_defs)

theorem children_of_example_witness:
  "replace_slashes ''dir/'' \<noteq> [] \<and> name (file_named ''dir/'' True) = ''dir/'' \<and>
   file_named ''dir/'' True \<notin>
     set (filterFilesByFolder (file_named ''dir/'' True # example_entries) ''dir/'') \<and>
   map name (filterFilesByFolder example_entries ''dir/'') = [''dir/b.txt'']"
  using children_of_example
          [where folder = "''dir/''" and e = "file_named ''dir/'' True"
             and files = "file_named ''dir/'' True # example_entries"]
  by (simp add: str_defs)


section \<open>The child filter against its specification\<close>

text \<open>
  Claim C4, as stated, fails. A single leading slash of the folder is not stripped, so
  the folder \<open>/dir/\<close> has no children although \<open>dir/b.txt\<close> is in the list; and the
  path of an entry is normalised before it is tested, so the directory entry \<open>dir/\<close>
  and the entry \<open>//x\<close> are children of the root although their paths contain a slash.
\<close>

theorem filter_differs_from_spec_counterexample:
  "map name (filterFilesByFolder example_entries ''/dir/'') = [] \<and>
   map name (spec_children example_entries ''/dir/'') = [''dir/b.txt''] \<and>
   map name (filterFilesByFolder [file_named ''dir/'' True] []) = [''dir/''] \<and>
   map name (spec_children [file_named ''dir/'' True] []) = [] \<and>
   map name (filterFilesByFolder [file_named ''//x'' False] []) = [''//x''] \<and>
   map name (spec_children [file_named ''//x'' False] []) = []"
  by (simp add: example_entries_def filterFilesByFolder_def shouldInclude_def
      spec_children_def spec_prefix_def spec_is_child_def str_defs)

lemma no_slash_no_double_slash:
  assumes "\<not> startsWith s ''/''"
  shows "\<not> startsWith s ''//''"
proof
  assume "startsWith s ''//''"
  then have t: "take (Suc (Suc 0)) s = ''//''" by (simp add: startsWith_def)
  have "take (Suc 0) (take (Suc (Suc 0)) s) = take (Suc 0) s" by (simp add: min_def)
  then have "take (Suc 0) s = ''/''" unfolding t by simp
  then show False using assms by (simp add: startsWith_def)
qed

text \<open>
  Claim C4, amended. For a folder string without a leading slash and entries whose
  paths do not start with two slashes, the prefix is the folder without one trailing
  slash, and the result is, in input order, exactly the entries whose path without one
  trailing slash has no slash (empty prefix) or starts with the prefix and a slash and
  has no further slash. The input list is a value and is not changed.
\<close>

theorem filterFilesByFolder_direct_children:
  assumes "\<not> startsWith folder ''/''"
    and "\<forall>e \<in> set files. \<not> startsWith (name e) ''//''"
  shows "filterFilesByFolder files folder =
           filter (\<lambda>e. spec_is_child (spec_prefix folder) (strip_trailing_slash (name e))) files"
proof -
  have "\<not> startsWith folder ''//''"
    using assms(1) by (rule no_slash_no_double_slash)
  then have p: "replace_slashes folder = spec_prefix folder"
    using assms(1) by (simp add: replace_slashes_def spec_prefix_def strip_trailing_slash_def)
  have "shouldInclude (spec_prefix folder) e =
        spec_is_child (spec_prefix folder) (strip_trailing_slash (name e))"
    if "e \<in> set files" for e
  proof -
    have "replace_slashes (name e) = strip_trailing_slash (name e)"
      using assms(2) that by (simp add: replace_slashes_def strip_trailing_slash_def)
    then show ?thesis by (auto simp: shouldInclude_def spec_is_child_def Let_def)
  qed
  then have "filter (shouldInclude (spec_prefix folder)) files =
        filter (\<lambda>e. spec_is_child (spec_prefix folder) (strip_trailing_slash (name e))) files"
    by (intro filter_cong) auto
  then show ?thesis by (cases files) (simp_all add: filterFilesByFolder_def p)
qed

theorem filterFilesByFolder_direct_children_witness:
  "\<not> startsWith ''dir/'' ''/'' \<and>
   list_all (\<lambda>e. \<not> startsWith (name e) ''//'') (file_named ''dir/'' True # example_entries) \<and>
   map name (filterFilesByFolder (file_named ''dir/'' True # example_entries) ''dir/'') =
     [''dir/b.txt''] \<and>
   map name (filterFilesByFolder (file_named ''dir/'' True # example_entries) []) =
     [''dir/'', ''a.txt'']"
  using filterFilesByFolder_direct_children
          [where folder = "''dir/''" and files = "file_named ''dir/'' True # example_entries"]
        filterFilesByFolder_direct_children
          [where folder = "[]" and files = "file_named ''dir/'' True # example_entries"]
  by (simp add: example_entries_def spec_prefix_def spec_is_child_def str_defs)

section \<open>Status-bar count against the rendered rows\<close>

text \<open>
  Claim C10. For the list \<open>[dir/, dir/b.txt]\<close> and the folder \<open>dir/\<close>, \<open>getFileStats\<close>
  counts two items while \<open>filterFilesByFolder\<close> returns one row; the item that makes
  the difference is the folder's own entry, which \<open>getFileStats\<close> counts and the
  filter leaves out. So the count of the status bar and the number of rows differ.
\<close>

theorem stats_count_differs_from_children:
  "count (getFileStats marker_and_child ''dir/'') = 2 \<and>
   length (filterFilesByFolder marker_and_child ''dir/'') = 1 \<and>
   count (getFileStats [file_named ''dir/'' True] ''dir/'') = 1 \<and>
   filterFilesByFolder [file_named ''dir/'' True] ''dir/'' = [] \<and>
   (\<exists>files folder. count (getFileStats files folder) \<noteq> length (filterFilesByFolder files folder))"
proof -
  have a: "count (getFileStats marker_and_child ''dir/'') = 2"
    by (simp add: marker_and_child_def getFileStats_def inCurrentFolder_def segment_count_def
        str_defs)
  have b: "length (filterFilesByFolder marker_and_child ''dir/'') = 1"
    by (simp add: marker_and_child_def filterFilesByFolder_def shouldInclude_def str_defs)
  have c: "count (getFileStats [file_named ''dir/'' True] ''dir/'') = 1"
    by (simp add: getFileStats_def inCurrentFolder_def str_defs)
  have d: "filterFilesByFolder [file_named ''dir/'' True] ''dir/'' = []"
    by (simp add: filterFilesByFolder_def shouldInclude_def str_defs)
  have "count (getFileStats marker_and_child ''dir/'') \<noteq>
        length (filterFilesByFolder marker_and_child ''dir/'')"
    using a b by simp
  then show ?thesis using a b c d by blast
qed

section \<open>The selection model\<close>

lemma file_item_elements_iff:
  "FileItemElement p i \<in> set (file_item_elements files) \<longleftrightarrow>
   0 \<le> i \<and> i < int (length files) \<and> p = name (files ! nat i)"
proof
  assume "FileItemElement p i \<in> set (file_item_elements files)"
  then obtain k f where "(k, f) \<in> set (enumerate 0 files)" "p = name f" "i = int k"
    by (auto simp: file_item_elements_def)
  then show "0 \<le> i \<and> i < int (length files) \<and> p = name (files ! nat i)"
    by (auto simp: in_set_enumerate_eq)
next
  assume a: "0 \<le> i \<and> i < int (length files) \<and> p = name (files ! nat i)"
  then have "(nat i, files ! nat i) \<in> set (enumerate 0 files)"
    by (auto simp: in_set_enumerate_eq)
  then have "(\<lambda>(i, file). FileItemElement (name file) (int i)) (nat i, files ! nat i)
             \<in> set (file_item_elements files)"
    unfolding file_item_elements_def by (metis image_eqI set_map)
  then show "FileItemElement p i \<in> set (file_item_elements files)"
    using a by simp
qed

lemma add_range_eq:
  "\<forall>i \<in> set is. 0 \<le> i \<and> i < int (length files) \<Longrightarrow>
   add_range files is sel = Some (sel \<union> (\<lambda>i. name (files ! nat i)) ` set is)"
  by (induction "is" arbitrary: sel) (auto simp: js_index_def)

lemma add_range_subset:
  "add_range files is sel = Some sel' \<Longrightarrow> sel' \<subseteq> sel \<union> name ` set files"
proof (induction "is" arbitrary: sel)
  case Nil
  then show ?case by simp
next
  case (Cons i "is")
  then obtain f where f: "js_index files i = Some f"
    and r: "add_range files is (insert (name f) sel) = Some sel'"
    by (auto split: option.splits)
  have "f \<in> set files" using f by (auto simp: js_index_def split: if_splits)
  then show ?case using Cons.IH [OF r] by auto
qed

lemma click_preserves_inv:
  assumes "explorer_inv e" and "rendered_target e target"
    and "handleFileListClick target ctrlPressed shiftPressed e = Inr e'"
  shows "explorer_inv e'"
proof (cases target)
  case ListBody
  then show ?thesis using assms by (auto simp: handleFileListClick_def explorer_inv_def split: if_splits)
next
  case (FileItemElement p i)
  then have r: "0 \<le> i" "i < int (length (currentRenderedFiles e))"
    "p = name (currentRenderedFiles e ! nat i)"
    using assms(2) by (auto simp: rendered_target_def file_item_elements_iff)
  then have pin: "p \<in> name ` set (currentRenderedFiles e)" by simp
  have idx: "js_index (currentRenderedFiles e) i = Some (currentRenderedFiles e ! nat i)"
    using r by (simp add: js_index_def)
  show ?thesis
    using assms(1,3) r(1,2) pin idx unfolding FileItemElement handleFileListClick_def explorer_inv_def
    by (auto simp: Let_def split: if_splits option.splits dest!: add_range_subset) blast+
qed

lemma context_menu_preserves_inv:
  assumes "explorer_inv e" and "rendered_target e target"
  shows "explorer_inv (handleFileListContextMenu target e)"
proof (cases target)
  case ListBody
  then show ?thesis using assms by (simp add: handleFileListContextMenu_def)
next
  case (FileItemElement p i)
  then have "p \<in> name ` set (currentRenderedFiles e)"
    using assms(2) by (auto simp: rendered_target_def file_item_elements_iff)
  then show ?thesis
    using assms(1) unfolding FileItemElement handleFileListContextMenu_def explorer_inv_def
    by (auto split: option.splits)
qed

lemma click_never_throws:
  assumes "explorer_inv e" and "rendered_target e target"
  shows "\<exists>e'. handleFileListClick target ctrlPressed shiftPressed e = Inr e'"
proof (cases target)
  case ListBody
  then show ?thesis by (simp add: handleFileListClick_def)
next
  case (FileItemElement p i)
  then have r: "0 \<le> i" "i < int (length (currentRenderedFiles e))"
    using assms(2) by (auto simp: rendered_target_def file_item_elements_iff)
  have "\<forall>j \<in> set [min (lastClickedIndex e) i..max (lastClickedIndex e) i].
          0 \<le> j \<and> j < int (length (currentRenderedFiles e))"
    if "lastClickedIndex e \<noteq> -1"
    using that assms(1) r by (auto simp: explorer_inv_def)
  then show ?thesis
    unfolding FileItemElement handleFileListClick_def
    by (auto simp: Let_def add_range_eq split: option.splits)
qed

lemmas click_defs = clickSimple_def clickToggle_def clickRange_def handleFileListClick_def




text \<open>
  Claim C6, as stated, fails. With no anchor set and \<open>B\<close> selected, a shift click on
  row \<open>A\<close> sets the anchor to 0, and a ctrl-shift click on row \<open>B\<close> removes \<open>B\<close> from
  the selection and sets the anchor to 1.
\<close>

theorem shift_click_without_anchor_counterexample:
  "lastClickedIndex menu_selected_B = -1 \<and> selectedFiles menu_selected_B = {''B''} \<and>
   currentRenderedFiles menu_selected_B = two_rows \<and>
   clickRange ''A'' 0 False menu_selected_B =
     Inr (menu_selected_B\<lparr>selectedFiles := {''A''}, lastClickedIndex := 0\<rparr>) \<and>
   clickRange ''B'' 1 True menu_selected_B =
     Inr (menu_selected_B\<lparr>selectedFiles := {}, lastClickedIndex := 1\<rparr>)"
  by (simp add: menu_selected_B_def rendered_list_def two_rows_def updateFileList_def
      initial_explorer_def handleFileListContextMenu_def click_defs js_index_def)

text \<open>
  Claim C6, amended. While no anchor is set, a shift click is handled as the click
  without shift: as a toggle when ctrl is held and as a plain click otherwise. On a
  rendered row with a non-empty path it replaces the selection by that path (no ctrl),
  or flips the membership of that path in the selection (ctrl), and in both cases sets
  the anchor to the clicked index.
\<close>

theorem shift_click_without_anchor:
  assumes "lastClickedIndex e = -1"
  shows "clickRange path index preserveExisting e =
           (if preserveExisting then clickToggle path index e else clickSimple path index e) \<and>
         (\<not> explorer_isLoading e \<longrightarrow> path \<noteq> [] \<longrightarrow>
          js_index (currentRenderedFiles e) index = Some item \<longrightarrow>
            clickRange path index preserveExisting e =
              Inr (e\<lparr>selectedFiles :=
                       (if preserveExisting
                        then (if path \<in> selectedFiles e then selectedFiles e - {path}
                              else insert path (selectedFiles e))
                        else {path}),
                     lastClickedIndex := index\<rparr>))"
  using assms by (auto simp: click_defs js_index_def)

theorem shift_click_without_anchor_witness:
  "lastClickedIndex (rendered_list two_rows) = -1 \<and>
   \<not> explorer_isLoading (rendered_list two_rows) \<and>
   js_index (currentRenderedFiles (rendered_list two_rows)) 1 = Some (file_named ''B'' False) \<and>
   clickRange ''B'' 1 False (rendered_list two_rows) =
     Inr ((rendered_list two_rows)\<lparr>selectedFiles := {''B''}, lastClickedIndex := 1\<rparr>) \<and>
   clickRange ''B'' 1 True (rendered_list two_rows) =
     Inr ((rendered_list two_rows)\<lparr>selectedFiles := {''B''}, lastClickedIndex := 1\<rparr>)"
proof -
  have h: "lastClickedIndex (rendered_list two_rows) = -1"
    by (simp add: rendered_list_def updateFileList_def)
  show ?thesis
    using h
      shift_click_without_anchor
        [OF h, where path = "''B''" and index = 1 and preserveExisting = False
           and item = "file_named ''B'' False", THEN conjunct2]
      shift_click_without_anchor
        [OF h, where path = "''B''" and index = 1 and preserveExisting = True
           and item = "file_named ''B'' False", THEN conjunct2]
    by (simp add: rendered_list_def two_rows_def updateFileList_def initial_explorer_def js_index_def)
qed

subsection \<open>Rows of a replaced list\<close>

lemma numbered_rows_length: "length (numbered_rows c) = 101"
  by (simp only: numbered_rows_def length_map length_upt)

lemma numbered_rows_nth:
  "i < 101 \<Longrightarrow> numbered_rows c ! i = file_named (c # replicate i (CHR ''x'')) False"
  by (simp only: numbered_rows_def nth_map length_upt nth_upt) simp

lemma numbered_rows_names: "f \<in> set (numbered_rows c) \<Longrightarrow> hd (name f) = c"
  by (auto simp only: numbered_rows_def set_map fn_simps list.sel)

lemma renderBatch_first:
  assumes "length files = 101"
  shows "renderBatch files 0 v =
           v\<lparr>fileListBody := fileListBody v @ batch_rows files 0 100,
             pendingBatches := pendingBatches v @ [(files, 100)]\<rparr>"
  using assms by (simp add: renderBatch_def BATCH_SIZE_def Let_def)

lemma renderBatch_last:
  assumes "length files = 101"
  shows "renderBatch files 100 v =
           v\<lparr>fileListBody := fileListBody v @ [FileItemElement (name (files ! 100)) 100]\<rparr>"
proof -
  have "[100..<101] = [100::nat]" by (simp add: upt_rec)
  then show ?thesis
    using assms by (simp add: renderBatch_def BATCH_SIZE_def Let_def batch_rows_def)
qed

lemma stale_view_eq:
  "stale_view =
     \<lparr>vars = \<lparr>explorer_isLoading = False, selectedFiles = {}, lastClickedIndex = -1,
              currentRenderedFiles = numbered_rows (CHR ''n''),
              currentOnFileDblClick = True\<rparr>,
      fileListBody = batch_rows (numbered_rows (CHR ''n'')) 0 100 @
                     [FileItemElement stale_path 100],
      pendingBatches = [(numbered_rows (CHR ''n''), 100)]\<rparr>"
proof -
  have n: "length (numbered_rows (CHR ''n'')) \<noteq> 0" "length (numbered_rows (CHR ''o'')) \<noteq> 0"
    by (simp_all only: numbered_rows_length)
  have p: "name (numbered_rows (CHR ''o'') ! 100) = stale_path"
    by (simp add: numbered_rows_nth stale_path_def)
  show ?thesis
    unfolding stale_view_def updateFileList_view_def Let_def
    by (simp only: n if_False renderBatch_first [OF numbered_rows_length])
      (simp add: fire_timer_def renderBatch_last [OF numbered_rows_length] p
        initial_view_def initial_explorer_def updateFileList_def)
qed

lemma stale_view_reachable: "view_reachable stale_view"
  unfolding stale_view_def by (intro reach_timer reach_render reach_initial)

lemma stale_click:
  "handleFileListClick (FileItemElement stale_path 100) False False (vars stale_view) =
     Inr (vars stale_clicked)"
proof -
  have "js_index (numbered_rows (CHR ''n'')) 100 = Some (numbered_rows (CHR ''n'') ! 100)"
    by (simp add: js_index_def numbered_rows_length)
  then show ?thesis
    by (simp add: stale_clicked_def stale_view_eq handleFileListClick_def stale_path_def)
qed

lemma stale_path_not_rendered: "stale_path \<notin> name ` set (numbered_rows (CHR ''n''))"
proof
  assume "stale_path \<in> name ` set (numbered_rows (CHR ''n''))"
  then obtain f where "f \<in> set (numbered_rows (CHR ''n''))" "name f = stale_path" by auto
  then have "hd stale_path = CHR ''n''" using numbered_rows_names by metis
  then show False by (simp add: stale_path_def)
qed

text \<open>
  Claim C7. Every run of \<open>updateFileList\<close> empties the selection and resets the anchor
  to \<open>-1\<close>, whatever the new list and the old selection are, and so does \<open>refreshUI\<close>.
  But a selected path need not be in the last rendered list: when a list of 101 rows
  is replaced by another before its second batch is drawn, that batch still appends
  its row to the list body; the view with this row is reachable, a plain click on the
  row completes, and the path it selects is not the name of any file of the rendered
  list.
\<close>

theorem stale_row_breaks_selection_invariant:
  "selectedFiles (updateFileList files cb e) = {} \<and>
   lastClickedIndex (updateFileList files cb e) = -1 \<and>
   currentRenderedFiles (updateFileList files cb e) = files \<and>
   selectedFiles (explorer (refreshUI localeCompare s)) = {} \<and>
   lastClickedIndex (explorer (refreshUI localeCompare s)) = -1 \<and>
   selectedFiles (vars (updateFileList_view files cb v)) = {} \<and>
   lastClickedIndex (vars (updateFileList_view files cb v)) = -1 \<and>
   view_reachable stale_view \<and>
   currentRenderedFiles (vars stale_view) = numbered_rows (CHR ''n'') \<and>
   selectedFiles (vars stale_view) = {} \<and>
   FileItemElement stale_path 100 \<in> set (fileListBody stale_view) \<and>
   handleFileListClick (FileItemElement stale_path 100) False False (vars stale_view) =
     Inr (vars stale_clicked) \<and>
   view_reachable stale_clicked \<and>
   selectedFiles (vars stale_clicked) = {stale_path} \<and>
   stale_path \<notin> name ` set (currentRenderedFiles (vars stale_clicked))"
proof -
  have u: "selectedFiles (updateFileList files cb e) = {}"
    "lastClickedIndex (updateFileList files cb e) = -1"
    "currentRenderedFiles (updateFileList files cb e) = files"
    by (simp_all add: updateFileList_def)
  have r: "selectedFiles (explorer (refreshUI localeCompare s)) = {}"
    "lastClickedIndex (explorer (refreshUI localeCompare s)) = -1"
    by (simp_all add: refreshUI_def updateFileList_def Let_def)
  have w: "selectedFiles (vars (updateFileList_view files cb v)) = {}"
    "lastClickedIndex (vars (updateFileList_view files cb v)) = -1"
    by (simp_all add: updateFileList_view_def renderBatch_def updateFileList_def Let_def)
  have body: "FileItemElement stale_path 100 \<in> set (fileListBody stale_view)"
    by (simp add: stale_view_eq)
  have sv: "currentRenderedFiles (vars stale_view) = numbered_rows (CHR ''n'')"
    "selectedFiles (vars stale_view) = {}"
    by (simp_all add: stale_view_eq)
  have "view_reachable (stale_view\<lparr>vars := vars stale_clicked\<rparr>)"
    using stale_view_reachable body stale_click by (blast intro: reach_click)
  then have rc: "view_reachable stale_clicked" by (simp add: stale_clicked_def)
  have sc: "selectedFiles (vars stale_clicked) = {stale_path}"
    "currentRenderedFiles (vars stale_clicked) = numbered_rows (CHR ''n'')"
    by (simp_all add: stale_clicked_def stale_view_eq)
  show ?thesis
    using u r w stale_view_reachable sv body stale_click rc sc stale_path_not_rendered
    by simp
qed

section \<open>The loading gate\<close>

text \<open>
  Claim C8, as stated, fails. \<open>handleDelete\<close> reads no loading flag: confirmed while
  the gate is busy, it replaces the cached entry list and sets the gate to idle.
\<close>

theorem delete_runs_while_busy_counterexample:
  "isLoading busy_example \<and>
   currentFiles busy_example = [file_named ''dir/'' True, file_named ''dir/b.txt'' False] \<and>
   currentFiles
     (handleDelete no_locale True (Inr ()) (Inr [file_named ''dir/'' True]) busy_example) =
     [file_named ''dir/'' True] \<and>
   \<not> isLoading
     (handleDelete no_locale True (Inr ()) (Inr [file_named ''dir/'' True]) busy_example) \<and>
   handleDelete no_locale True (Inr ()) (Inr [file_named ''dir/'' True]) busy_example \<noteq>
     busy_example"
proof -
  have a: "currentFiles
     (handleDelete no_locale True (Inr ()) (Inr [file_named ''dir/'' True]) busy_example) =
     [file_named ''dir/'' True]"
    by (simp add: handleDelete_def busy_example_def setIsLoading_def showSuccess_def
        refreshUI_def Let_def)
  have b: "\<not> isLoading
     (handleDelete no_locale True (Inr ()) (Inr [file_named ''dir/'' True]) busy_example)"
    by (simp add: handleDelete_def busy_example_def setIsLoading_def Let_def)
  have c: "isLoading busy_example" by (simp add: busy_example_def)
  have d: "currentFiles busy_example = [file_named ''dir/'' True, file_named ''dir/b.txt'' False]"
    by (simp add: busy_example_def)
  from b c have "handleDelete no_locale True (Inr ()) (Inr [file_named ''dir/'' True]) busy_example \<noteq>
     busy_example" by metis
  with a b c d show ?thesis by blast
qed

lemma refreshUI_fields [simp]:
  "navigationHistory (refreshUI lc s) = navigationHistory s"
  "currentFiles (refreshUI lc s) = currentFiles s"
  "currentArchivePath (refreshUI lc s) = currentArchivePath s"
  "isLoading (refreshUI lc s) = isLoading s"
  "page (refreshUI lc s) = page s"
  "notices (refreshUI lc s) = notices s"
  by (simp_all add: refreshUI_def Let_def)

lemma navigateToFolder_busy: "isLoading s \<Longrightarrow> navigateToFolder lc folderPath s = s"
  by (simp add: navigateToFolder_def)

lemma handleDelete_ignores_gate:
  "(handleDelete lc confirmed deleteResult reloadResult (s\<lparr>isLoading := b\<rparr>))\<lparr>isLoading := x\<rparr> =
   (handleDelete lc confirmed deleteResult reloadResult s)\<lparr>isLoading := x\<rparr>"
  by (simp add: handleDelete_def setIsLoading_def showInfo_def showError_def showSuccess_def
      refreshUI_def Let_def split: sum.splits)

text \<open>
  Claim C8, amended. While the gate is busy, the Back, Forward and Up buttons, a folder
  click (\<open>navigateToFolder\<close>) and the double-click callback leave the whole state as it
  is, and a double click on a row leaves the history, the cursor, the cached entry
  list and the gate as they are. \<open>handleDelete\<close> does not consult the gate: apart from
  the gate's own value, it does while busy what it does while idle.
\<close>

theorem navigation_rejected_while_busy:
  assumes "isLoading s"
  shows "backClick lc s = s \<and> forwardClick lc s = s \<and> upClick lc s = s \<and>
         navigateToFolder lc folderPath s = s \<and>
         onFileDblClick lc item s = s \<and>
         navigationHistory (handleFileListDblClick lc target s) = navigationHistory s \<and>
         currentFiles (handleFileListDblClick lc target s) = currentFiles s \<and>
         isLoading (handleFileListDblClick lc target s) \<and>
         (handleDelete lc confirmed deleteResult reloadResult s)\<lparr>isLoading := x\<rparr> =
           (handleDelete lc confirmed deleteResult reloadResult (s\<lparr>isLoading := False\<rparr>))
             \<lparr>isLoading := x\<rparr>"
proof -
  have nav: "navigateToFolder lc p s' = s'" if "isLoading s'" for p s'
    using that by (rule navigateToFolder_busy)
  have cb: "onFileDblClick lc f s' = s'" if "isLoading s'" for f s'
    using that by (simp add: onFileDblClick_def)
  have dbl: "handleFileListDblClick lc target s = s \<or>
             handleFileListDblClick lc target s = s\<lparr>explorer := clearOnDblClick (explorer s)\<rparr> \<or>
             handleFileListDblClick lc target s =
               showInfo (s\<lparr>explorer := clearOnDblClick (explorer s)\<rparr>)"
    using assms
    by (auto simp: handleFileListDblClick_def Let_def nav cb split: click_target.splits option.splits)
  have d1: "navigationHistory (handleFileListDblClick lc target s) = navigationHistory s"
    using dbl by (auto simp: showInfo_def)
  have d2: "currentFiles (handleFileListDblClick lc target s) = currentFiles s"
    using dbl by (auto simp: showInfo_def)
  have d3: "isLoading (handleFileListDblClick lc target s)"
    using dbl assms by (auto simp: showInfo_def)
  show ?thesis
    using assms d1 d2 d3 handleDelete_ignores_gate
            [where lc = lc and confirmed = confirmed and deleteResult = deleteResult
               and reloadResult = reloadResult and s = s and b = False and x = x]
    by (simp add: backClick_def forwardClick_def upClick_def nav cb)
qed

theorem navigation_rejected_while_busy_witness:
  "isLoading busy_example \<and> canGoBack (navigationHistory busy_example) \<and>
   backClick no_locale busy_example = busy_example \<and>
   currentIndex (navigationHistory (backClick no_locale busy_example)) = 1 \<and>
   upClick no_locale busy_example = busy_example \<and>
   navigateToFolder no_locale ''dir/sub/'' busy_example = busy_example"
  using navigation_rejected_while_busy
          [where s = busy_example and lc = no_locale and folderPath = "''dir/sub/''"]
  by (simp add: busy_example_def canGoBack_def)

text \<open>
  Claim C9. \<open>loadArchive\<close> has the gate busy when it awaits the backend, and idle once
  the call has settled, with an error or with a list. The refresh handler also leaves
  the gate idle, and after an error it leaves the cached list, the history and the
  archive path as they were. After an error of the open, the archive path and the
  cached list are empty, the home page is shown and an error is notified, but the
  navigation history and the explorer are left as they were: from an archive browsed
  at \<open>dir/\<close>, the history is still \<open>['', dir/]\<close> at cursor 1 and the selection still
  holds, where \<open>resetAppToHome\<close> resets the history to the root.
\<close>

theorem loadArchive_failure_keeps_history:
  "isLoading (loadArchive_begin s) \<and>
   \<not> isLoading (loadArchive_settle lc archivePath result s') \<and>
   \<not> isLoading (loadArchive lc archivePath result s) \<and>
   currentArchivePath (loadArchive_settle lc archivePath (Inl error) s') = [] \<and>
   currentFiles (loadArchive_settle lc archivePath (Inl error) s') = [] \<and>
   page (loadArchive_settle lc archivePath (Inl error) s') = HomePage \<and>
   notices (loadArchive_settle lc archivePath (Inl error) s') = notices s' @ [ShowError] \<and>
   navigationHistory (loadArchive_settle lc archivePath (Inl error) s') = navigationHistory s' \<and>
   explorer (loadArchive_settle lc archivePath (Inl error) s') = explorer s' \<and>
   currentArchivePath (loadArchive_settle lc archivePath (Inr files) s') = archivePath \<and>
   currentFiles (loadArchive_settle lc archivePath (Inr files) s') = files \<and>
   navigationHistory (loadArchive_settle lc archivePath (Inr files) s') = reset [] \<and>
   page (loadArchive_settle lc archivePath (Inr files) s') = FileBrowser \<and>
   \<not> isLoading (refresh_settle lc result s') \<and>
   currentFiles (refresh_settle lc (Inl error) s') = currentFiles s' \<and>
   navigationHistory (refresh_settle lc (Inl error) s') = navigationHistory s' \<and>
   currentArchivePath (refresh_settle lc (Inl error) s') = currentArchivePath s' \<and>
   currentFiles (refreshClick lc (Inl error) s) = currentFiles s \<and>
   navigationHistory (refreshClick lc (Inl error) s) = navigationHistory s \<and>
   navigationHistory (loadArchive no_locale ''/tmp/y.zip'' (Inl ''io'') browsing_example) =
     \<lparr>history = [[], ''dir/''], currentIndex = 1\<rparr> \<and>
   selectedFiles (explorer (loadArchive no_locale ''/tmp/y.zip'' (Inl ''io'') browsing_example)) =
     {''dir/b.txt''} \<and>
   navigationHistory (resetAppToHome browsing_example) = \<lparr>history = [[]], currentIndex = 0\<rparr> \<and>
   currentArchivePath (resetAppToHome browsing_example) = [] \<and>
   currentFiles (resetAppToHome browsing_example) = [] \<and>
   page (resetAppToHome browsing_example) = HomePage \<and>
   navigationHistory (loadArchive no_locale ''/tmp/y.zip'' (Inl ''io'') browsing_example) \<noteq>
     navigationHistory (resetAppToHome browsing_example)"
  by (simp add: loadArchive_begin_def loadArchive_settle_def loadArchive_def setIsLoading_def
      showError_def showSuccess_def resetAppState_def showHomePage_def showFileBrowser_def
      refresh_settle_def refreshClick_def refresh_begin_def updateLoadingStatus_def Let_def
      resetAppToHome_def reset_def browsing_example_def busy_example_def
      split: sum.splits)

end
